theory Spec2Isabelle
  imports Main "HOL-Library.Multiset"
begin

section \<open>Data model\<close>

text \<open>
  The working table of \<^verbatim>\<open>hcp_utils.py\<close> is a pandas DataFrame. A row carries its index
  label, the five base columns and the cells of the three derived columns. A missing
  value (NaN) of a derived cell is \<open>None\<close>. The five base columns are present by type;
  \<open>extra_columns\<close> lists, in order, the derived columns the table has, and the cell of
  a derived column the table does not have is not read by any function below.

  \<open>rx value\<close> is an integer here. pandas holds the column as 64-bit integers or doubles;
  the model covers the magnitudes at which multiplying by 1, 2 or 3 is exact in both.
\<close>

datatype error = ValueError | KeyError | IndexError

record row =
  idx :: int
  npi_id :: string
  speciality :: string
  rx_value :: int
  state_code :: string
  writing_behavior :: string
  score :: "int option"
  priority_rank :: int
  segment :: "string option"

record frame =
  extra_columns :: "string list"
  rows :: "row list"

text \<open>A row as the data source hands it over; its derived cells are not set yet.\<close>

definition base_row :: "int \<Rightarrow> string \<Rightarrow> string \<Rightarrow> int \<Rightarrow> string \<Rightarrow> string \<Rightarrow> row" where
  "base_row i npi spec rx state wb =
     \<lparr>idx = i, npi_id = npi, speciality = spec, rx_value = rx, state_code = state,
      writing_behavior = wb, score = None, priority_rank = 0, segment = None\<rparr>"

text \<open>
  DataFrames are objects: two names may refer to one table, and an assignment to a column
  changes the table for every name. The store holds the tables, a reference is a position
  in it, and creating a table appends it.
\<close>

type_synonym ref = nat
type_synonym store = "frame list"

definition base_columns :: "string list" where
  "base_columns = [''NPI Id'', ''speciality'', ''rx value'', ''state_code'', ''writing_behavior'']"

definition columns :: "frame \<Rightarrow> string list" where
  "columns df = base_columns @ extra_columns df"

text \<open>\<^verbatim>\<open>df[c] = values\<close>: a new column goes to the end, an existing one is overwritten.\<close>

definition add_column :: "string \<Rightarrow> string list \<Rightarrow> string list" where
  "add_column c cs = (if c \<in> set cs then cs else cs @ [c])"

definition set_score :: "int option list \<Rightarrow> frame \<Rightarrow> frame" where
  "set_score vs df =
     \<lparr>extra_columns = add_column ''score'' (extra_columns df),
      rows = map2 (\<lambda>r v. r\<lparr>score := v\<rparr>) (rows df) vs\<rparr>"

definition set_priority_rank :: "int list \<Rightarrow> frame \<Rightarrow> frame" where
  "set_priority_rank vs df =
     \<lparr>extra_columns = add_column ''priority_rank'' (extra_columns df),
      rows = map2 (\<lambda>r v. r\<lparr>priority_rank := v\<rparr>) (rows df) vs\<rparr>"

definition set_segment :: "string option list \<Rightarrow> frame \<Rightarrow> frame" where
  "set_segment vs df =
     \<lparr>extra_columns = add_column ''segment'' (extra_columns df),
      rows = map2 (\<lambda>r v. r\<lparr>segment := v\<rparr>) (rows df) vs\<rparr>"

section \<open>The pandas operations the pipeline calls\<close>

subsection \<open>Sorting by a column\<close>

text \<open>
  \<^verbatim>\<open>df.sort_values('score', ascending=False)\<close> asks for the default sorting kind,
  \<^verbatim>\<open>quicksort\<close>, which hands the defined values to numpy's \<^verbatim>\<open>argsort\<close>. That routine is
  outside the repository and differs between builds, so it is a parameter: a function
  from the values to the positions in sorted order. \<open>argsort_ok\<close> is what every sorting
  kind guarantees at one input: the result holds each position once and the values read
  in that order ascend.
\<close>

type_synonym argsort = "int list \<Rightarrow> nat list"

definition argsort_ok :: "argsort \<Rightarrow> int list \<Rightarrow> bool" where
  "argsort_ok A vs \<longleftrightarrow>
     distinct (A vs) \<and> set (A vs) = set [0..<length vs] \<and> sorted (map (\<lambda>i. vs ! i) (A vs))"

text \<open>The array handed to \<open>argsort\<close> by a descending sort: the defined values, reversed.\<close>

definition argsort_input :: "int option list \<Rightarrow> int list" where
  "argsort_input items =
     rev (map (\<lambda>i. the (items ! i)) (filter (\<lambda>i. items ! i \<noteq> None) [0..<length items]))"

text \<open>
  Insertion sort on (value, position) pairs by value: a sorting kind that keeps the
  input order among equal values.
\<close>

definition stable_argsort :: argsort where
  "stable_argsort vs = map snd (sort_key fst (zip vs [0..<length vs]))"


text \<open>
  For a descending sort pandas reverses the defined values, sorts them ascending and
  reverses the result; the positions of the missing values follow in their input order
  (\<^verbatim>\<open>na_position='last'\<close>, the default).
\<close>

definition nargsort_desc :: "argsort \<Rightarrow> int option list \<Rightarrow> nat list" where
  "nargsort_desc A items =
     (let positions = [0..<length items];
          non_nan_idx = filter (\<lambda>i. items ! i \<noteq> None) positions;
          nan_idx = filter (\<lambda>i. items ! i = None) positions;
          non_nans = map (\<lambda>i. the (items ! i)) non_nan_idx;
          indexer = map (\<lambda>j. rev non_nan_idx ! j) (A (rev non_nans))
      in rev indexer @ nan_idx)"

definition sort_values_score_desc :: "argsort \<Rightarrow> frame \<Rightarrow> frame" where
  "sort_values_score_desc A df =
     df\<lparr>rows := map (\<lambda>i. rows df ! i) (nargsort_desc A (map score (rows df)))\<rparr>"

text \<open>\<^verbatim>\<open>reset_index(drop=True)\<close>: the labels become 0, 1, 2, ... in row order.\<close>

definition reset_index :: "frame \<Rightarrow> frame" where
  "reset_index df =
     df\<lparr>rows := map2 (\<lambda>r i. r\<lparr>idx := int i\<rparr>) (rows df) [0..<length (rows df)]\<rparr>"

subsection \<open>Binning\<close>

text \<open>
  \<^verbatim>\<open>pd.cut(x, bins=bins, labels=labels, include_lowest=True)\<close> with the defaults
  \<^verbatim>\<open>right=True\<close>, \<^verbatim>\<open>duplicates='raise'\<close>, \<^verbatim>\<open>ordered=True\<close>. The edges must ascend and, unless
  there are exactly two of them, be pairwise different; otherwise the call raises
  ValueError. A value lands in the bin found by a left-sided search among the edges; a
  value equal to the first edge is put into the first bin; a value outside all bins is
  missing.
\<close>

definition searchsorted_left :: "int list \<Rightarrow> int \<Rightarrow> nat" where
  "searchsorted_left bins v = length (takeWhile (\<lambda>b. b < v) bins)"

definition pd_cut :: "int list \<Rightarrow> int list \<Rightarrow> string list \<Rightarrow> error + string option list" where
  "pd_cut x bins labels =
     (if \<not> sorted bins then Inl ValueError
      else if length (remdups bins) < length bins \<and> length bins \<noteq> 2 then Inl ValueError
      else case bins of
        [] \<Rightarrow> Inl IndexError
      | b0 # _ \<Rightarrow>
          if \<not> distinct labels then Inl ValueError
          else if length labels \<noteq> length bins - 1 then Inl ValueError
          else Inr (map (\<lambda>v. let i = (if v = b0 then 1 else searchsorted_left bins v)
                              in if i = length bins \<or> i = 0 then None
                                 else Some (labels ! (i - 1))) x))"

section \<open>The functions of hcp_utils.py\<close>

subsection \<open>synthea_simulator and generate_hcp_data\<close>

text \<open>
  The random number generators of Python and numpy are outside the repository. They are
  taken as a record of functions over two state types: seeding builds a state from the
  seed alone, and each draw maps a state to the values drawn and the next state. The
  log-normal draw stands for \<^verbatim>\<open>np.random.lognormal(mean=9, sigma=0.7, size=n).astype(int)\<close>
  and the numpy choice for \<^verbatim>\<open>np.random.choice(..., size=n, p=[0.3, 0.5, 0.2])\<close>.
\<close>

record ('g, 'n) rng_library =
  random_seed :: "int \<Rightarrow> 'g"
  np_random_seed :: "int \<Rightarrow> 'n"
  random_choices :: "string list \<Rightarrow> nat \<Rightarrow> 'g \<Rightarrow> string list \<times> 'g"
  np_random_lognormal_astype_int :: "nat \<Rightarrow> 'n \<Rightarrow> int list \<times> 'n"
  np_random_choice :: "string list \<Rightarrow> nat \<Rightarrow> 'n \<Rightarrow> string list \<times> 'n"

text \<open>\<^verbatim>\<open>str(n)\<close> for an integer: a minus sign if it is negative, and its decimal digits.\<close>

function decimal_digits :: "int \<Rightarrow> string" where
  "decimal_digits n =
     (if n < 10 then [char_of (48 + n)]
      else decimal_digits (n div 10) @ [char_of (48 + n mod 10)])"
  by pat_completeness auto
termination
  by (relation "measure nat") auto

declare decimal_digits.simps [simp del]

definition str_int :: "int \<Rightarrow> string" where
  "str_int n = (if n < 0 then CHR ''-'' # decimal_digits (- n) else decimal_digits n)"

definition specialty_list :: "string list" where
  "specialty_list = [''Cardiology'', ''Dermatology'', ''Endocrinology'', ''Family Medicine'',
     ''Gastroenterology'', ''Internal Medicine'', ''Neurology'', ''Oncology'', ''Pediatrics'',
     ''Psychiatry'', ''Surgery'']"

definition state_list :: "string list" where
  "state_list = [''CA'', ''NY'', ''TX'', ''FL'', ''IL'', ''PA'', ''OH'', ''GA'', ''NC'', ''MI'']"

text \<open>
  \<^verbatim>\<open>pd.DataFrame({...})\<close> from five columns: they must have one length, otherwise the
  constructor raises ValueError. The index is 0, 1, 2, ...
\<close>

definition new_dataframe ::
  "string list \<Rightarrow> string list \<Rightarrow> int list \<Rightarrow> string list \<Rightarrow> string list \<Rightarrow> error + frame" where
  "new_dataframe npi_ids specialties rx_values state_codes writing_behaviors =
     (let n = length npi_ids
      in if length specialties = n \<and> length rx_values = n \<and> length state_codes = n
            \<and> length writing_behaviors = n
         then Inr \<lparr>extra_columns = [],
                   rows = map (\<lambda>i. base_row (int i) (npi_ids ! i) (specialties ! i) (rx_values ! i)
                                       (state_codes ! i) (writing_behaviors ! i)) [0..<n]\<rparr>
         else Inl ValueError)"

text \<open>
  The generator reads and writes the two process-wide generator states, so they are
  passed in and returned. Both are replaced by the states of seed 42 before anything is
  drawn.
\<close>

definition synthea_simulator ::
  "('g, 'n) rng_library \<Rightarrow> nat \<Rightarrow> 'g \<times> 'n \<Rightarrow> (error + frame) \<times> ('g \<times> 'n)" where
  "synthea_simulator L num_patients s =
     (let n1 = np_random_seed L 42;
          g1 = random_seed L 42;
          npi_ids = map (\<lambda>i. str_int (1000000000 + int i)) [0..<num_patients];
          (specialties, g2) = random_choices L specialty_list num_patients g1;
          (state_codes, g3) = random_choices L state_list num_patients g2;
          (rx_values, n2) = np_random_lognormal_astype_int L num_patients n1;
          (writing_behavior, n3) = np_random_choice L [''High'', ''Medium'', ''Low''] num_patients n2
      in (new_dataframe npi_ids specialties rx_values state_codes writing_behavior, (g3, n3)))"

definition generate_hcp_data ::
  "('g, 'n) rng_library \<Rightarrow> nat \<Rightarrow> 'g \<times> 'n \<Rightarrow> (error + frame) \<times> ('g \<times> 'n)" where
  "generate_hcp_data L num_hcps s = synthea_simulator L num_hcps s"

subsection \<open>rank_hcps\<close>

definition score_map :: "string \<rightharpoonup> int" where
  "score_map = [''High'' \<mapsto> 3, ''Medium'' \<mapsto> 2, ''Low'' \<mapsto> 1]"

text \<open>A product with a missing factor is missing.\<close>

definition times_cell :: "int \<Rightarrow> int option \<Rightarrow> int option" where
  "times_cell x w = (case w of None \<Rightarrow> None | Some k \<Rightarrow> Some (x * k))"

definition score_column :: "frame \<Rightarrow> int option list" where
  "score_column d = map (\<lambda>r. times_cell (rx_value r) (score_map (writing_behavior r))) (rows d)"

text \<open>
  The first statement assigns the score column to the table the caller passed. The
  second binds the local name to a new table, the sorted copy; the rank column goes to
  that one, and its reference is returned.
\<close>

definition rank_hcps :: "argsort \<Rightarrow> ref \<Rightarrow> store \<Rightarrow> ref \<times> store" where
  "rank_hcps A df st =
     (let st1 = st[df := set_score (score_column (st ! df)) (st ! df)];
          sorted_df = reset_index (sort_values_score_desc A (st1 ! df));
          df2 = length st1;
          st2 = st1 @ [sorted_df];
          st3 = st2[df2 := set_priority_rank (map (\<lambda>r. idx r + 1) (rows (st2 ! df2))) (st2 ! df2)]
      in (df2, st3))"

text \<open>The two tables a call leaves behind: the caller's, and the one returned.\<close>

definition scored :: "frame \<Rightarrow> frame" where
  "scored d = set_score (score_column d) d"

definition ranked :: "argsort \<Rightarrow> frame \<Rightarrow> frame" where
  "ranked A d =
     (let s = reset_index (sort_values_score_desc A (scored d))
      in set_priority_rank (map (\<lambda>r. idx r + 1) (rows s)) s)"

subsection \<open>segment_hcps\<close>

text \<open>
  \<^verbatim>\<open>int(n*0.2)\<close> and \<^verbatim>\<open>int(n*0.5)\<close> are \<open>n div 5\<close> and \<open>n div 2\<close>: the double nearest to
  0.2 exceeds 0.2 by about \<open>1.1e-17\<close>, so for every table length below \<open>2 ^ 50\<close> the
  product rounds to a double whose integer part is \<open>n div 5\<close>; halving is exact.
\<close>

definition segment_labels :: "string list" where
  "segment_labels = [''Top 20%'', ''Middle 30%'', ''Bottom 50%'']"

definition segment_bins :: "nat \<Rightarrow> int list" where
  "segment_bins n = [0, int (n div 5), int (n div 2), int n]"

definition segment_hcps :: "ref \<Rightarrow> store \<Rightarrow> error + ref \<times> store" where
  "segment_hcps df st =
     (let n = length (rows (st ! df));
          bins = segment_bins n;
          labels = segment_labels
      in if ''priority_rank'' \<notin> set (columns (st ! df)) then Inl KeyError
         else case pd_cut (map priority_rank (rows (st ! df))) bins labels of
                Inl e \<Rightarrow> Inl e
              | Inr seg \<Rightarrow> Inr (df, st[df := set_segment seg (st ! df)]))"

text \<open>
  The segment of a rank as the specification words it: edges 0, \<open>n div 5\<close>, \<open>n div 2\<close>
  and \<open>n\<close>, each bin closed on the right, the first one closed on the left as well.
\<close>

definition segment_of_rank :: "nat \<Rightarrow> int \<Rightarrow> string option" where
  "segment_of_rank n k =
     (if 0 \<le> k \<and> k \<le> int (n div 5) then Some ''Top 20%''
      else if int (n div 5) < k \<and> k \<le> int (n div 2) then Some ''Middle 30%''
      else if int (n div 2) < k \<and> k \<le> int n then Some ''Bottom 50%''
      else None)"

subsection \<open>channel_affinity\<close>

fun affinity_loop :: "row list \<Rightarrow> string list \<Rightarrow> string list" where
  "affinity_loop [] affinity = affinity"
| "affinity_loop (r # rest) affinity =
     (if writing_behavior r = ''High'' \<or> speciality r \<in> set [''Cardiology'', ''Oncology'']
      then affinity_loop rest (affinity @ [''In-person''])
      else affinity_loop rest (affinity @ [''Email'']))"

text \<open>The result is a table of its own: one pair (NPI Id, channel_affinity) per row.\<close>

definition channel_affinity :: "ref \<Rightarrow> store \<Rightarrow> (string \<times> string) list" where
  "channel_affinity df st =
     zip (map npi_id (rows (st ! df))) (affinity_loop (rows (st ! df)) [])"

text \<open>The channel of a record as the specification words it.\<close>

definition affinity_rule :: "string \<Rightarrow> string \<Rightarrow> string" where
  "affinity_rule spec wb =
     (if wb = ''High'' \<or> spec \<in> {''Cardiology'', ''Oncology''} then ''In-person'' else ''Email'')"

section \<open>The pipeline of app.py\<close>

text \<open>
  Lines 41 to 53 of \<^verbatim>\<open>app.py\<close>: the table \<open>data\<close> is ranked, the result is segmented and
  classified, and then \<open>data\<close> itself is shown and exported as "Current HCP Data". An
  error of the segmenter ends the run.
\<close>

record app_view =
  current_hcp_data :: frame
  priority_list :: frame
  affinity_table :: "(string \<times> string) list"

definition app_tables :: "argsort \<Rightarrow> ref \<Rightarrow> store \<Rightarrow> error + app_view" where
  "app_tables A data st =
     (let (data_ranked, st1) = rank_hcps A data st
      in case segment_hcps data_ranked st1 of
           Inl e \<Rightarrow> Inl e
         | Inr (data_segmented, st2) \<Rightarrow>
             (let affinity = channel_affinity data_segmented st2
              in Inr \<lparr>current_hcp_data = st2 ! data,
                      priority_list = st2 ! data_segmented,
                      affinity_table = affinity\<rparr>))"

subsection \<open>Reading a table by score\<close>

text \<open>
  The records of a table that have a given score cell, in row order, each with its base
  cells and the score; the index label and the other derived cells are left out.
\<close>

definition base_cells :: "row \<Rightarrow> string \<times> string \<times> int \<times> string \<times> string" where
  "base_cells r = (npi_id r, speciality r, rx_value r, state_code r, writing_behavior r)"


section \<open>Example tables\<close>

text \<open>
  A table as the data source hands it over: base columns only. The fourth row of
  \<open>demo_table\<close> has a writing behaviour outside the score map, and its first and third
  rows tie at a score of 3000.
\<close>

definition demo_table :: frame where
  "demo_table = \<lparr>extra_columns = [], rows =
     [base_row 0 ''1000000000'' ''Cardiology'' 1000 ''CA'' ''High'',
      base_row 1 ''1000000001'' ''Dermatology'' 500 ''NY'' ''Low'',
      base_row 2 ''1000000002'' ''Oncology'' 1500 ''TX'' ''Medium'',
      base_row 3 ''1000000003'' ''Pediatrics'' 900 ''FL'' ''Unknown'',
      base_row 4 ''1000000004'' ''Family Medicine'' 700 ''IL'' ''Medium'',
      base_row 5 ''1000000005'' ''Surgery'' 400 ''PA'' ''High'']\<rparr>"

definition single_table :: frame where
  "single_table = \<lparr>extra_columns = [], rows =
     [base_row 0 ''1000000000'' ''Cardiology'' 1000 ''CA'' ''High'']\<rparr>"

text \<open>
  Counters in place of the two random number generators: seeding sets the counter from
  the seed, a draw reads values off the counter and advances it.
\<close>

definition counter_library :: "(nat, nat) rng_library" where
  "counter_library =
     \<lparr>random_seed = (\<lambda>a. nat \<bar>a\<bar>),
      np_random_seed = (\<lambda>a. nat \<bar>a\<bar> + 1),
      random_choices = (\<lambda>population k g.
         (map (\<lambda>i. population ! ((g + i) mod length population)) [0..<k], g + k)),
      np_random_lognormal_astype_int = (\<lambda>k n.
         (map (\<lambda>i. 8000 + int ((n + i) * 37 mod 1000)) [0..<k], n + k)),
      np_random_choice = (\<lambda>population k n.
         (map (\<lambda>i. population ! ((n + 2 * i) mod length population)) [0..<k], n + k))\<rparr>"



definition empty_table :: frame where
  "empty_table = \<lparr>extra_columns = [], rows = []\<rparr>"

text \<open>The stores the ranking of each example leaves; the ranked table is at reference 1.\<close>

definition demo_ranked :: store where
  "demo_ranked = snd (rank_hcps stable_argsort 0 [demo_table])"

definition single_ranked :: store where
  "single_ranked = snd (rank_hcps stable_argsort 0 [single_table])"

definition empty_ranked :: store where
  "empty_ranked = snd (rank_hcps stable_argsort 0 [empty_table])"

section \<open>Facts about the tables a ranking leaves\<close>

lemma map2_map_same: "map2 f xs (map g xs) = map (\<lambda>x. f x (g x)) xs"
  by (induction xs) simp_all

lemma map2_upt_nth:
  "length xs = n \<Longrightarrow> map2 f xs [0..<n] = map (\<lambda>i. f (xs ! i) i) [0..<n]"
  by (rule nth_equalityI) simp_all

lemma rows_scored:
  "rows (scored d) = map (\<lambda>r. r\<lparr>score := times_cell (rx_value r) (score_map (writing_behavior r))\<rparr>) (rows d)"
  unfolding scored_def set_score_def score_column_def by (simp add: map2_map_same)

lemma score_rows_scored: "map score (rows (scored d)) = score_column d"
  unfolding rows_scored score_column_def by simp

lemma extra_columns_scored: "extra_columns (scored d) = add_column ''score'' (extra_columns d)"
  by (simp add: scored_def set_score_def)

lemma rank_hcps_eq:
  assumes "df < length st"
  shows "rank_hcps A df st = (length st, st[df := scored (st ! df)] @ [ranked A (st ! df)])"
  using assms unfolding rank_hcps_def Let_def scored_def ranked_def
  by (simp add: nth_append list_update_append)

lemma rows_ranked:
  "rows (ranked A d) =
     map (\<lambda>p. (rows (scored d) ! (nargsort_desc A (score_column d) ! p))
                 \<lparr>idx := int p, priority_rank := int p + 1\<rparr>)
         [0..<length (nargsort_desc A (score_column d))]"
proof -
  let ?ix = "nargsort_desc A (score_column d)"
  let ?s = "map (\<lambda>i. rows (scored d) ! i) ?ix"
  have a: "rows (reset_index (sort_values_score_desc A (scored d)))
            = map (\<lambda>p. (?s ! p)\<lparr>idx := int p\<rparr>) [0..<length ?s]"
    unfolding reset_index_def sort_values_score_desc_def score_rows_scored
    by (simp add: map2_upt_nth)
  have "rows (ranked A d) = map (\<lambda>r. r\<lparr>priority_rank := idx r + 1\<rparr>)
            (rows (reset_index (sort_values_score_desc A (scored d))))"
    unfolding ranked_def Let_def set_priority_rank_def by (simp add: map2_map_same)
  also have "\<dots> = map (\<lambda>p. (?s ! p)\<lparr>idx := int p, priority_rank := int p + 1\<rparr>) [0..<length ?s]"
    unfolding a by simp
  also have "\<dots> = map (\<lambda>p. (rows (scored d) ! (?ix ! p))\<lparr>idx := int p, priority_rank := int p + 1\<rparr>)
         [0..<length ?ix]"
    by (rule nth_equalityI) simp_all
  finally show ?thesis .
qed


lemma nargsort_desc_eq:
  "nargsort_desc A items =
     rev (map (\<lambda>j. rev (filter (\<lambda>i. items ! i \<noteq> None) [0..<length items]) ! j) (A (argsort_input items)))
     @ filter (\<lambda>i. items ! i = None) [0..<length items]"
  by (simp add: nargsort_desc_def Let_def argsort_input_def rev_map)

lemma map_nth_perm_set:
  assumes "set js = {0..<length xs}"
  shows "set (map (\<lambda>j. xs ! j) js) = set xs"
proof -
  have "set (map (\<lambda>j. xs ! j) js) = (\<lambda>j. xs ! j) ` {0..<length xs}"
    using assms by simp
  also have "\<dots> = set xs"
    by (auto simp: set_conv_nth)
  finally show ?thesis .
qed

lemma map_nth_perm_distinct:
  assumes "distinct js" "set js = {0..<length xs}" "distinct xs"
  shows "distinct (map (\<lambda>j. xs ! j) js)"
  using assms by (auto simp: distinct_map inj_on_def nth_eq_iff_index_eq)

lemma nargsort_desc_perm:
  assumes "argsort_ok A (argsort_input items)"
  shows "distinct (nargsort_desc A items)"
    and "set (nargsort_desc A items) = {0..<length items}"
    and "length (nargsort_desc A items) = length items"
proof -
  let ?nn = "filter (\<lambda>i. items ! i \<noteq> None) [0..<length items]"
  let ?na = "filter (\<lambda>i. items ! i = None) [0..<length items]"
  let ?js = "A (argsort_input items)"
  let ?ix = "map (\<lambda>j. rev ?nn ! j) ?js"
  have len: "length (argsort_input items) = length (rev ?nn)"
    by (simp add: argsort_input_def)
  from assms have dj: "distinct ?js" and sj: "set ?js = {0..<length (rev ?nn)}"
    by (simp_all add: argsort_ok_def len)
  have s: "set ?ix = set ?nn"
    using map_nth_perm_set[OF sj] by simp
  have d: "distinct ?ix"
    by (rule map_nth_perm_distinct[OF dj sj]) simp
  show 1: "distinct (nargsort_desc A items)"
    unfolding nargsort_desc_eq using d s by auto
  show 2: "set (nargsort_desc A items) = {0..<length items}"
    unfolding nargsort_desc_eq using s by auto
  from 1 2 show "length (nargsort_desc A items) = length items"
    by (metis card_atLeastLessThan diff_zero distinct_card)
qed

section \<open>Facts about the binning\<close>

lemma searchsorted_left_4:
  assumes "a < b" "b < c" "c < d"
  shows "searchsorted_left [a, b, c, d] v =
     (if v \<le> a then 0 else if v \<le> b then 1 else if v \<le> c then 2 else if v \<le> d then 3 else 4)"
  using assms by (auto simp: searchsorted_left_def)

lemma segment_bins_strict:
  assumes "5 \<le> n"
  shows "(0::int) < int (n div 5)" "int (n div 5) < int (n div 2)" "int (n div 2) < int n"
  using assms by auto

lemma cut_segment_bins:
  assumes "5 \<le> n"
  shows "pd_cut x (segment_bins n) segment_labels = Inr (map (segment_of_rank n) x)"
proof -
  note s = segment_bins_strict[OF assms]
  have srt: "sorted (segment_bins n)" using s by (simp add: segment_bins_def)
  have dst: "distinct (segment_bins n)" using s by (auto simp: segment_bins_def)
  have len: "length (segment_bins n) = 4" by (simp add: segment_bins_def)
  have hd: "segment_bins n = 0 # tl (segment_bins n)" by (simp add: segment_bins_def)
  have lab: "(\<lambda>v. let i = (if v = 0 then 1 else searchsorted_left (segment_bins n) v)
           in if i = length (segment_bins n) \<or> i = 0 then None
              else Some (segment_labels ! (i - 1))) = segment_of_rank n"
    using s unfolding segment_bins_def
    by (auto simp: fun_eq_iff searchsorted_left_4 segment_of_rank_def segment_labels_def Let_def)
  have "pd_cut x (segment_bins n) segment_labels =
      Inr (map (\<lambda>v. let i = (if v = 0 then 1 else searchsorted_left (segment_bins n) v)
           in if i = length (segment_bins n) \<or> i = 0 then None
              else Some (segment_labels ! (i - 1))) x)"
    unfolding pd_cut_def using srt dst len
    by (subst (3) hd) (simp add: distinct_remdups_id segment_labels_def)
  then show ?thesis by (simp only: lab)
qed

lemma cut_small: "n < 5 \<Longrightarrow> pd_cut x (segment_bins n) segment_labels = Inl ValueError"
  by (simp add: pd_cut_def segment_bins_def)

section \<open>Further facts about ranking and segmenting\<close>

lemma map_nth_upt_length: "map (\<lambda>p. f (ix ! p)) [0..<length ix] = map f ix"
  by (rule nth_equalityI) simp_all

lemma ranked_cells:
  assumes "\<And>r i k. g (r\<lparr>idx := i, priority_rank := k\<rparr>) = g r"
  shows "map g (rows (ranked A d)) = map (\<lambda>i. g (rows (scored d) ! i)) (nargsort_desc A (score_column d))"
  unfolding rows_ranked
  by (simp add: assms o_def map_nth_upt_length[of "\<lambda>i. g (rows (scored d) ! i)"])

lemma length_rows_scored: "length (rows (scored d)) = length (rows d)"
  by (simp add: rows_scored)

lemma length_score_column: "length (score_column d) = length (rows d)"
  by (simp add: score_column_def)

lemma length_rows_ranked:
  assumes "argsort_ok A (argsort_input (score_column d))"
  shows "length (rows (ranked A d)) = length (rows d)"
  unfolding rows_ranked using nargsort_desc_perm(3)[OF assms] by (simp add: length_score_column)

lemma mset_ranked_cells:
  assumes g: "\<And>r i k. g (r\<lparr>idx := i, priority_rank := k\<rparr>) = g r"
    and ok: "argsort_ok A (argsort_input (score_column d))"
  shows "mset (map g (rows (ranked A d))) = mset (map g (rows (scored d)))"
proof -
  let ?ix = "nargsort_desc A (score_column d)"
  let ?n = "length (rows (scored d))"
  have "mset ?ix = mset [0..<?n]"
    using nargsort_desc_perm(1,2)[OF ok]
    by (intro iffD1[OF set_eq_iff_mset_eq_distinct]) (simp_all add: length_score_column length_rows_scored)
  then have "mset (map (\<lambda>i. g (rows (scored d) ! i)) ?ix) = mset (map (\<lambda>i. g (rows (scored d) ! i)) [0..<?n])"
    by (metis mset_map)
  also have "map (\<lambda>i. g (rows (scored d) ! i)) [0..<?n] = map g (rows (scored d))"
    by (rule nth_equalityI) simp_all
  finally show ?thesis by (simp only: ranked_cells[of g, OF g])
qed


lemma segment_hcps_eq:
  assumes "df < length st" "''priority_rank'' \<in> set (columns (st ! df))" "5 \<le> length (rows (st ! df))"
  shows "segment_hcps df st = Inr (df, st[df := set_segment
            (map (segment_of_rank (length (rows (st ! df)))) (map priority_rank (rows (st ! df)))) (st ! df)])"
  using assms unfolding segment_hcps_def Let_def by (simp add: cut_segment_bins)

text \<open>A table of fewer than five rows cannot be segmented: its first two edges are both 0.\<close>

lemma segment_hcps_small:
  assumes "''priority_rank'' \<in> set (columns (st ! df))" "length (rows (st ! df)) < 5"
  shows "segment_hcps df st = Inl ValueError"
  using assms unfolding segment_hcps_def Let_def by (simp add: cut_small)

lemma segment_of_rank_ranges:
  assumes "5 \<le> N"
  shows "(segment_of_rank N k = Some ''Top 20%'' \<longleftrightarrow> 0 \<le> k \<and> k \<le> int (N div 5)) \<and>
         (segment_of_rank N k = Some ''Middle 30%'' \<longleftrightarrow> int (N div 5) < k \<and> k \<le> int (N div 2)) \<and>
         (segment_of_rank N k = Some ''Bottom 50%'' \<longleftrightarrow> int (N div 2) < k \<and> k \<le> int N) \<and>
         (segment_of_rank N k = None \<longleftrightarrow> k < 0 \<or> int N < k)"
  using segment_bins_strict[OF assms] by (auto simp: segment_of_rank_def)

lemma rank_hcps_result:
  assumes "df < length st"
  shows "snd (rank_hcps A df st) ! fst (rank_hcps A df st) = ranked A (st ! df)"
    and "snd (rank_hcps A df st) ! df = scored (st ! df)"
  using assms by (simp_all add: rank_hcps_eq nth_append)


lemma score_scored_row:
  assumes "r \<in> set (rows (scored d))"
  shows "score r = times_cell (rx_value r) (score_map (writing_behavior r))"
  using assms unfolding rows_scored by auto

lemma nth_ranked:
  assumes ok: "argsort_ok A (argsort_input (score_column d))" and p: "p < length (rows d)"
  shows "nargsort_desc A (score_column d) ! p < length (rows d)"
    and "rows (ranked A d) ! p =
           (rows (scored d) ! (nargsort_desc A (score_column d) ! p))\<lparr>idx := int p, priority_rank := int p + 1\<rparr>"
proof -
  let ?ix = "nargsort_desc A (score_column d)"
  have l: "length ?ix = length (rows d)"
    using nargsort_desc_perm(3)[OF ok] by (simp add: length_score_column)
  have "?ix ! p \<in> set ?ix" using p l by simp
  then show "?ix ! p < length (rows d)"
    using nargsort_desc_perm(2)[OF ok] by (simp add: length_score_column)
  show "rows (ranked A d) ! p = (rows (scored d) ! (?ix ! p))\<lparr>idx := int p, priority_rank := int p + 1\<rparr>"
    unfolding rows_ranked using p l by simp
qed

lemma score_ranked_row:
  assumes ok: "argsort_ok A (argsort_input (score_column d))"
    and r: "r \<in> set (rows (ranked A d))"
  shows "score r = times_cell (rx_value r) (score_map (writing_behavior r))"
proof -
  from r obtain p where p: "p < length (rows (ranked A d))" and e: "r = rows (ranked A d) ! p"
    by (auto simp: in_set_conv_nth)
  from p have p': "p < length (rows d)" by (simp only: length_rows_ranked[OF ok])
  let ?r1 = "rows (scored d) ! (nargsort_desc A (score_column d) ! p)"
  have "?r1 \<in> set (rows (scored d))"
    using nth_ranked(1)[OF ok p'] by (simp add: length_rows_scored)
  from score_scored_row[OF this] show ?thesis
    unfolding e nth_ranked(2)[OF ok p'] by simp
qed

lemma times_cell_weights:
  "times_cell x (score_map ''High'') = Some (x * 3)"
  "times_cell x (score_map ''Medium'') = Some (x * 2)"
  "times_cell x (score_map ''Low'') = Some (x * 1)"
  "w \<notin> {''High'', ''Medium'', ''Low''} \<Longrightarrow> times_cell x (score_map w) = None"
  by (simp_all add: times_cell_def score_map_def)

lemma score_nth_ranked:
  assumes ok: "argsort_ok A (argsort_input (score_column d))" and p: "p < length (rows d)"
  shows "score (rows (ranked A d) ! p) = score_column d ! (nargsort_desc A (score_column d) ! p)"
proof -
  let ?ix = "nargsort_desc A (score_column d)"
  have "score (rows (ranked A d) ! p) = score (rows (scored d) ! (?ix ! p))"
    unfolding nth_ranked(2)[OF ok p] by simp
  also have "\<dots> = map score (rows (scored d)) ! (?ix ! p)"
    using nth_ranked(1)[OF ok p] by (simp add: length_rows_scored)
  finally show ?thesis by (simp only: score_rows_scored)
qed

lemma nargsort_desc_split:
  assumes ok: "argsort_ok A (argsort_input items)"
  shows "\<exists>k \<le> length items.
           (\<forall>p < k. items ! (nargsort_desc A items ! p) \<noteq> None) \<and>
           (\<forall>p. k \<le> p \<and> p < length items \<longrightarrow> items ! (nargsort_desc A items ! p) = None)"
proof -
  let ?nn = "filter (\<lambda>i. items ! i \<noteq> None) [0..<length items]"
  let ?na = "filter (\<lambda>i. items ! i = None) [0..<length items]"
  let ?js = "A (argsort_input items)"
  let ?ix = "rev (map (\<lambda>j. rev ?nn ! j) ?js)"
  have len: "length (argsort_input items) = length (rev ?nn)"
    by (simp add: argsort_input_def)
  from ok have sj: "set ?js = {0..<length (rev ?nn)}"
    by (simp add: argsort_ok_def len)
  have s: "set ?ix = set ?nn"
    using map_nth_perm_set[OF sj] by simp
  have tot: "length ?ix + length ?na = length items"
    using nargsort_desc_perm(3)[OF ok] unfolding nargsort_desc_eq by simp
  have a: "\<forall>p < length ?ix. items ! (nargsort_desc A items ! p) \<noteq> None"
  proof (intro allI impI)
    fix p assume p: "p < length ?ix"
    then have "nargsort_desc A items ! p = ?ix ! p"
      unfolding nargsort_desc_eq by (simp add: nth_append)
    moreover have "?ix ! p \<in> set ?nn" using p s nth_mem by blast
    ultimately show "items ! (nargsort_desc A items ! p) \<noteq> None" by simp
  qed
  have b: "\<forall>p. length ?ix \<le> p \<and> p < length items \<longrightarrow> items ! (nargsort_desc A items ! p) = None"
  proof (intro allI impI)
    fix p assume p: "length ?ix \<le> p \<and> p < length items"
    then have q: "p - length ?ix < length ?na" using tot by linarith
    have "nargsort_desc A items ! p = ?na ! (p - length ?ix)"
      unfolding nargsort_desc_eq using p by (simp add: nth_append)
    moreover have "?na ! (p - length ?ix) \<in> set ?na" using q nth_mem by blast
    ultimately show "items ! (nargsort_desc A items ! p) = None" by simp
  qed
  have "length ?ix \<le> length items" using tot by linarith
  with a b show ?thesis by blast
qed


lemma mset_ranked_base:
  assumes ok: "argsort_ok A (argsort_input (score_column d))"
  shows "mset (map (\<lambda>r. (base_cells r, score r)) (rows (ranked A d))) =
         mset (map (\<lambda>r. (base_cells r, times_cell (rx_value r) (score_map (writing_behavior r)))) (rows d))"
proof -
  have "mset (map (\<lambda>r. (base_cells r, score r)) (rows (ranked A d))) =
        mset (map (\<lambda>r. (base_cells r, score r)) (rows (scored d)))"
    by (rule mset_ranked_cells[OF _ ok]) (simp add: base_cells_def)
  also have "map (\<lambda>r. (base_cells r, score r)) (rows (scored d)) =
        map (\<lambda>r. (base_cells r, times_cell (rx_value r) (score_map (writing_behavior r)))) (rows d)"
    unfolding rows_scored by (simp add: base_cells_def o_def)
  finally show ?thesis .
qed


lemma score_rows_after_rank:
  assumes "df < length st"
    and ok: "argsort_ok A (argsort_input (score_column (st ! df)))"
    and r: "r \<in> set (rows (snd (rank_hcps A df st) ! fst (rank_hcps A df st)))
            \<union> set (rows (snd (rank_hcps A df st) ! df))"
  shows "score r = times_cell (rx_value r) (score_map (writing_behavior r))"
  using r score_ranked_row[OF ok, of r] score_scored_row[of r "st ! df"]
  unfolding rank_hcps_result[OF assms(1)] by blast

section \<open>Facts about the order of the ranked table\<close>





text \<open>Insertion sort meets the contract on every array.\<close>

lemma argsort_ok_stable: "argsort_ok stable_argsort vs"
proof -
  let ?ps = "sort_key fst (zip vs [0..<length vs])"
  have z: "map snd (zip vs [0..<length vs]) = [0..<length vs]" by simp
  have "mset (map snd ?ps) = mset (map snd (zip vs [0..<length vs]))"
    by (simp only: mset_map mset_sort)
  then have m: "mset (map snd ?ps) = mset [0..<length vs]" by (simp only: z)
  from m have d: "distinct (map snd ?ps)"
    by (metis distinct_upt mset_eq_imp_distinct_iff)
  from m have s: "set (map snd ?ps) = set [0..<length vs]"
    by (rule mset_eq_setD)
  have "\<forall>p \<in> set ?ps. vs ! snd p = fst p"
    by (auto simp: set_zip)
  then have "map (\<lambda>i. vs ! i) (map snd ?ps) = map fst ?ps"
    by (simp add: o_def)
  then have o: "sorted (map (\<lambda>i. vs ! i) (map snd ?ps))"
    by (simp only: sorted_sort_key)
  from d s o show ?thesis unfolding argsort_ok_def stable_argsort_def by blast
qed














section \<open>Facts about the classifier, the generator and the pipeline\<close>

lemma affinity_loop_map:
  "affinity_loop rs acc = acc @ map (\<lambda>r. affinity_rule (speciality r) (writing_behavior r)) rs"
  by (induction rs arbitrary: acc) (simp_all add: affinity_rule_def)

lemma zip_map_map_same: "zip (map f xs) (map g xs) = map (\<lambda>x. (f x, g x)) xs"
  by (induction xs) simp_all

lemma synthea_simulator_state_free: "synthea_simulator L n s = synthea_simulator L n s'"
  unfolding synthea_simulator_def ..

lemma segment_hcps_Inr:
  assumes "segment_hcps df st = Inr (r, st')"
  shows "r = df \<and> (\<exists>seg. st' = st[df := set_segment seg (st ! df)])"
  using assms unfolding segment_hcps_def Let_def
  by (auto split: if_splits sum.splits)

lemma app_tables_shown:
  assumes "data < length st" and "app_tables A data st = Inr v"
  shows "current_hcp_data v = scored (st ! data)"
proof -
  let ?st1 = "st[data := scored (st ! data)] @ [ranked A (st ! data)]"
  from assms(2) obtain r st2 where
    s: "segment_hcps (length st) ?st1 = Inr (r, st2)" and v: "current_hcp_data v = st2 ! data"
    unfolding app_tables_def rank_hcps_eq[OF assms(1)]
    by (auto simp: Let_def split: sum.splits)
  from segment_hcps_Inr[OF s] obtain seg where
    "st2 = ?st1[length st := set_segment seg (?st1 ! length st)]" by blast
  then have "st2 ! data = ?st1 ! data" using assms(1) by simp
  also have "\<dots> = scored (st ! data)" using assms(1) by (simp add: nth_append)
  finally show ?thesis using v by simp
qed

section \<open>The claims\<close>

text \<open>
  C1 (as amended). For a table of \<open>N \<ge> 5\<close> rows with a rank column, \<open>segment_hcps\<close>
  returns and gives every row the segment of its rank: ranks 1 to \<open>N div 5\<close> are
  "Top 20%", ranks above \<open>N div 5\<close> up to \<open>N div 2\<close> are "Middle 30%", ranks above
  \<open>N div 2\<close> up to \<open>N\<close> are "Bottom 50%"; so every rank from 1 to \<open>N\<close> has exactly one
  segment, rank 1 is "Top 20%" and rank \<open>N\<close> is "Bottom 50%".
\<close>

theorem segment_hcps_partition:
  assumes "df < length st"
    and "''priority_rank'' \<in> set (columns (st ! df))"
    and "N = length (rows (st ! df))"
    and "5 \<le> N"
  shows "(\<exists>st'. segment_hcps df st = Inr (df, st') \<and>
            rows (st' ! df) =
              map (\<lambda>r. r\<lparr>segment := segment_of_rank N (priority_rank r)\<rparr>) (rows (st ! df))) \<and>
         (\<forall>k. 1 \<le> k \<and> k \<le> int N \<longrightarrow>
            (segment_of_rank N k = Some ''Top 20%'' \<longleftrightarrow> k \<le> int (N div 5)) \<and>
            (segment_of_rank N k = Some ''Middle 30%'' \<longleftrightarrow> int (N div 5) < k \<and> k \<le> int (N div 2)) \<and>
            (segment_of_rank N k = Some ''Bottom 50%'' \<longleftrightarrow> int (N div 2) < k)) \<and>
         segment_of_rank N 1 = Some ''Top 20%'' \<and>
         segment_of_rank N (int N) = Some ''Bottom 50%''"
proof -
  have "rows (st[df := set_segment (map (segment_of_rank N) (map priority_rank (rows (st ! df)))) (st ! df)] ! df)
         = map (\<lambda>r. r\<lparr>segment := segment_of_rank N (priority_rank r)\<rparr>) (rows (st ! df))"
    using assms(1) unfolding set_segment_def by (simp add: map2_map_same)
  then have a: "\<exists>st'. segment_hcps df st = Inr (df, st') \<and>
            rows (st' ! df) =
              map (\<lambda>r. r\<lparr>segment := segment_of_rank N (priority_rank r)\<rparr>) (rows (st ! df))"
    using segment_hcps_eq[OF assms(1,2)] assms(3,4) by simp
  have b: "\<forall>k. 1 \<le> k \<and> k \<le> int N \<longrightarrow>
            (segment_of_rank N k = Some ''Top 20%'' \<longleftrightarrow> k \<le> int (N div 5)) \<and>
            (segment_of_rank N k = Some ''Middle 30%'' \<longleftrightarrow> int (N div 5) < k \<and> k \<le> int (N div 2)) \<and>
            (segment_of_rank N k = Some ''Bottom 50%'' \<longleftrightarrow> int (N div 2) < k)"
    using segment_of_rank_ranges[OF assms(4)] by auto
  have c: "segment_of_rank N 1 = Some ''Top 20%''"
    using segment_bins_strict[OF assms(4)] by (simp add: segment_of_rank_def)
  have d: "segment_of_rank N (int N) = Some ''Bottom 50%''"
    using segment_of_rank_ranges[OF assms(4), of "int N"] segment_bins_strict[OF assms(4)] by simp
  from a b c d show ?thesis by blast
qed

theorem segment_hcps_partition_witness:
  "1 < length demo_ranked \<and> ''priority_rank'' \<in> set (columns (demo_ranked ! 1)) \<and>
   5 \<le> length (rows (demo_ranked ! 1)) \<and>
   (\<exists>st'. segment_hcps 1 demo_ranked = Inr (1, st') \<and>
      map (\<lambda>r. (priority_rank r, segment r)) (rows (st' ! 1)) =
        [(1, Some ''Top 20%''), (2, Some ''Middle 30%''), (3, Some ''Middle 30%''),
         (4, Some ''Bottom 50%''), (5, Some ''Bottom 50%''), (6, Some ''Bottom 50%'')])"
proof -
  have h1: "1 < length demo_ranked" by code_simp
  have h2: "''priority_rank'' \<in> set (columns (demo_ranked ! 1))" by code_simp
  have h3: "6 = length (rows (demo_ranked ! 1))" by code_simp
  have r: "map priority_rank (rows (demo_ranked ! 1)) = [1, 2, 3, 4, 5, 6]" by code_simp
  from segment_hcps_partition[OF h1 h2 h3] obtain st' where
    s: "segment_hcps 1 demo_ranked = Inr (1, st')"
    and t: "rows (st' ! 1) = map (\<lambda>r. r\<lparr>segment := segment_of_rank 6 (priority_rank r)\<rparr>) (rows (demo_ranked ! 1))"
    by auto
  have "map (\<lambda>r. (priority_rank r, segment r)) (rows (st' ! 1))
       = map (\<lambda>k. (k, segment_of_rank 6 k)) (map priority_rank (rows (demo_ranked ! 1)))"
    unfolding t by (simp add: o_def)
  also have "\<dots> = [(1, Some ''Top 20%''), (2, Some ''Middle 30%''), (3, Some ''Middle 30%''),
         (4, Some ''Bottom 50%''), (5, Some ''Bottom 50%''), (6, Some ''Bottom 50%'')]"
    unfolding r by (simp add: segment_of_rank_def)
  finally show ?thesis using h1 h2 h3 s by simp
qed

text \<open>
  C1 as stated fails for a single record: its rank is 1, the bin edges are 0, 0, 0, 1,
  and the binning raises ValueError on the repeated edge, so no segment is assigned.
\<close>

theorem segment_single_record_raises:
  "map priority_rank (rows (single_ranked ! 1)) = [1] \<and>
   segment_bins (length (rows (single_ranked ! 1))) = [0, 0, 0, 1] \<and>
   segment_hcps 1 single_ranked = Inl ValueError"
  by code_simp

text \<open>
  C2. On the empty table \<open>rank_hcps\<close> returns an empty table with the score and rank
  columns, and \<open>segment_hcps\<close> on that table raises ValueError: the bin edges are
  0, 0, 0, 0.
\<close>

theorem empty_table_segment_raises:
  "rank_hcps stable_argsort 0 [empty_table] =
     (1, [\<lparr>extra_columns = [''score''], rows = []\<rparr>,
          \<lparr>extra_columns = [''score'', ''priority_rank''], rows = []\<rparr>]) \<and>
   segment_bins (length (rows (empty_ranked ! 1))) = [0, 0, 0, 0] \<and>
   segment_hcps 1 empty_ranked = Inl ValueError"
  by code_simp






text \<open>
  C7. \<open>rank_hcps\<close> returns for every table, with no record dropped, and a row whose
  writing behaviour is none of High, Medium and Low has a missing score, in the returned
  table and in the caller's table.
\<close>

theorem rank_hcps_unknown_behavior:
  assumes "df < length st"
    and "argsort_ok A (argsort_input (score_column (st ! df)))"
  shows "\<exists>df' st'. rank_hcps A df st = (df', st') \<and>
           length (rows (st' ! df')) = length (rows (st ! df)) \<and>
           length (rows (st' ! df)) = length (rows (st ! df)) \<and>
           (\<forall>r \<in> set (rows (st' ! df')) \<union> set (rows (st' ! df)).
              writing_behavior r \<notin> {''High'', ''Medium'', ''Low''} \<longrightarrow> score r = None)"
proof -
  have e: "rank_hcps A df st = (fst (rank_hcps A df st), snd (rank_hcps A df st))" by simp
  have a: "\<forall>r \<in> set (rows (snd (rank_hcps A df st) ! fst (rank_hcps A df st)))
            \<union> set (rows (snd (rank_hcps A df st) ! df)).
              writing_behavior r \<notin> {''High'', ''Medium'', ''Low''} \<longrightarrow> score r = None"
    using score_rows_after_rank[OF assms] times_cell_weights(4) by metis
  have b: "length (rows (snd (rank_hcps A df st) ! fst (rank_hcps A df st))) = length (rows (st ! df))"
    unfolding rank_hcps_result[OF assms(1)] by (rule length_rows_ranked[OF assms(2)])
  have c: "length (rows (snd (rank_hcps A df st) ! df)) = length (rows (st ! df))"
    unfolding rank_hcps_result[OF assms(1)] by (rule length_rows_scored)
  from e a b c show ?thesis by blast
qed

theorem rank_hcps_unknown_behavior_witness:
  "0 < length [demo_table] \<and>
   argsort_ok stable_argsort (argsort_input (score_column ([demo_table] ! 0))) \<and>
   (\<exists>df' st'. rank_hcps stable_argsort 0 [demo_table] = (df', st') \<and>
      length (rows (st' ! df')) = length (rows ([demo_table] ! 0)) \<and>
      filter (\<lambda>c. fst c \<notin> {''High'', ''Medium'', ''Low''})
         (map (\<lambda>r. (writing_behavior r, score r)) (rows (st' ! df'))) = [(''Unknown'', None)] \<and>
      (\<forall>r \<in> set (rows (st' ! df')) \<union> set (rows (st' ! 0)).
              writing_behavior r \<notin> {''High'', ''Medium'', ''Low''} \<longrightarrow> score r = None))"
proof -
  have h1: "0 < length [demo_table]" by simp
  have h2: "argsort_ok stable_argsort (argsort_input (score_column ([demo_table] ! 0)))"
    by code_simp
  from rank_hcps_unknown_behavior[OF h1 h2] obtain df' st' where
    r: "rank_hcps stable_argsort 0 [demo_table] = (df', st')"
    and l: "length (rows (st' ! df')) = length (rows ([demo_table] ! 0))"
    and k: "\<forall>r \<in> set (rows (st' ! df')) \<union> set (rows (st' ! 0)).
              writing_behavior r \<notin> {''High'', ''Medium'', ''Low''} \<longrightarrow> score r = None"
    by blast
  have "filter (\<lambda>c. fst c \<notin> {''High'', ''Medium'', ''Low''})
         (map (\<lambda>r. (writing_behavior r, score r))
          (rows (snd (rank_hcps stable_argsort 0 [demo_table]) ! fst (rank_hcps stable_argsort 0 [demo_table]))))
        = [(''Unknown'', None)]"
    by code_simp
  then have m: "filter (\<lambda>c. fst c \<notin> {''High'', ''Medium'', ''Low''})
         (map (\<lambda>r. (writing_behavior r, score r)) (rows (st' ! df'))) = [(''Unknown'', None)]"
    unfolding r by simp
  show ?thesis
    by (intro conjI exI[of _ df'] exI[of _ st']) (fact h1 h2 r l k m)+
qed

text \<open>
  C10. In the table \<open>rank_hcps\<close> returns, the row at position \<open>p\<close> (from 0) has rank
  \<open>p + 1\<close>, whether its score is defined or missing; every row with a missing score
  stands after every row with a defined score; and the rows are the input records, each
  once, so the records whose writing behaviour has no weight are all among them.
\<close>

theorem rank_hcps_missing_scores_last:
  assumes "df < length st"
    and "argsort_ok A (argsort_input (score_column (st ! df)))"
  shows "\<exists>df' st'. rank_hcps A df st = (df', st') \<and>
           length (rows (st' ! df')) = length (rows (st ! df)) \<and>
           (\<forall>p < length (rows (st' ! df')). priority_rank (rows (st' ! df') ! p) = int p + 1) \<and>
           (\<forall>p q. p < length (rows (st' ! df')) \<and> q < length (rows (st' ! df')) \<and>
                  score (rows (st' ! df') ! p) = None \<and> score (rows (st' ! df') ! q) \<noteq> None
                  \<longrightarrow> q < p) \<and>
           mset (map (\<lambda>r. (base_cells r, score r)) (rows (st' ! df'))) =
             mset (map (\<lambda>r. (base_cells r, times_cell (rx_value r) (score_map (writing_behavior r))))
                       (rows (st ! df)))"
proof -
  let ?d = "st ! df"
  let ?out = "ranked A ?d"
  let ?ix = "nargsort_desc A (score_column ?d)"
  have e: "rank_hcps A df st = (fst (rank_hcps A df st), snd (rank_hcps A df st))" by simp
  have o: "snd (rank_hcps A df st) ! fst (rank_hcps A df st) = ?out"
    by (rule rank_hcps_result(1)[OF assms(1)])
  have l: "length (rows ?out) = length (rows ?d)"
    by (rule length_rows_ranked[OF assms(2)])
  have 1: "\<forall>p < length (rows ?out). priority_rank (rows ?out ! p) = int p + 1"
    unfolding l using nth_ranked(2)[OF assms(2)] by simp
  from nargsort_desc_split[OF assms(2)] obtain k where
    k1: "\<forall>p < k. score_column ?d ! (?ix ! p) \<noteq> None"
    and k2: "\<forall>p. k \<le> p \<and> p < length (score_column ?d) \<longrightarrow> score_column ?d ! (?ix ! p) = None"
    by blast
  have 2: "\<forall>p q. p < length (rows ?out) \<and> q < length (rows ?out) \<and>
                  score (rows ?out ! p) = None \<and> score (rows ?out ! q) \<noteq> None \<longrightarrow> q < p"
  proof (intro allI impI)
    fix p q
    assume a: "p < length (rows ?out) \<and> q < length (rows ?out) \<and>
                  score (rows ?out ! p) = None \<and> score (rows ?out ! q) \<noteq> None"
    then have p: "p < length (rows ?d)" and q: "q < length (rows ?d)" by (simp_all add: l)
    from a have "score_column ?d ! (?ix ! p) = None" "score_column ?d ! (?ix ! q) \<noteq> None"
      by (simp_all add: score_nth_ranked[OF assms(2) p] score_nth_ranked[OF assms(2) q])
    with k1 k2 p q have "k \<le> p" "q < k"
      by (metis not_le_imp_less, metis length_score_column not_le_imp_less)
    then show "q < p" by simp
  qed
  have 3: "mset (map (\<lambda>r. (base_cells r, score r)) (rows ?out)) =
             mset (map (\<lambda>r. (base_cells r, times_cell (rx_value r) (score_map (writing_behavior r))))
                       (rows ?d))"
    by (rule mset_ranked_base[OF assms(2)])
  show ?thesis
    using e l 1 2 3 unfolding o[symmetric] by blast
qed

theorem rank_hcps_missing_scores_last_witness:
  "0 < length [demo_table] \<and>
   argsort_ok stable_argsort (argsort_input (score_column ([demo_table] ! 0))) \<and>
   (\<exists>df' st'. rank_hcps stable_argsort 0 [demo_table] = (df', st') \<and>
      map (\<lambda>r. (npi_id r, score r, priority_rank r)) (rows (st' ! df')) =
        [(''1000000000'', Some 3000, 1), (''1000000002'', Some 3000, 2), (''1000000004'', Some 1400, 3),
         (''1000000005'', Some 1200, 4), (''1000000001'', Some 500, 5), (''1000000003'', None, 6)] \<and>
      (\<forall>p q. p < length (rows (st' ! df')) \<and> q < length (rows (st' ! df')) \<and>
                  score (rows (st' ! df') ! p) = None \<and> score (rows (st' ! df') ! q) \<noteq> None
                  \<longrightarrow> q < p))"
proof -
  have h1: "0 < length [demo_table]" by simp
  have h2: "argsort_ok stable_argsort (argsort_input (score_column ([demo_table] ! 0)))"
    by code_simp
  from rank_hcps_missing_scores_last[OF h1 h2] obtain df' st' where
    r: "rank_hcps stable_argsort 0 [demo_table] = (df', st')"
    and k: "\<forall>p q. p < length (rows (st' ! df')) \<and> q < length (rows (st' ! df')) \<and>
                  score (rows (st' ! df') ! p) = None \<and> score (rows (st' ! df') ! q) \<noteq> None
                  \<longrightarrow> q < p"
    by blast
  have "map (\<lambda>r. (npi_id r, score r, priority_rank r))
          (rows (snd (rank_hcps stable_argsort 0 [demo_table]) ! fst (rank_hcps stable_argsort 0 [demo_table]))) =
        [(''1000000000'', Some 3000, 1), (''1000000002'', Some 3000, 2), (''1000000004'', Some 1400, 3),
         (''1000000005'', Some 1200, 4), (''1000000001'', Some 500, 5), (''1000000003'', None, 6)]"
    by code_simp
  then have m: "map (\<lambda>r. (npi_id r, score r, priority_rank r)) (rows (st' ! df')) =
        [(''1000000000'', Some 3000, 1), (''1000000002'', Some 3000, 2), (''1000000004'', Some 1400, 3),
         (''1000000005'', Some 1200, 4), (''1000000001'', Some 500, 5), (''1000000003'', None, 6)]"
    unfolding r by simp
  show ?thesis
    by (intro conjI exI[of _ df'] exI[of _ st']) (fact h1 h2 r k m)+
qed




text \<open>
  C5. \<open>channel_affinity\<close> returns one pair per row of the table, in row order: the
  row's NPI Id and its channel. The channel is "In-person" exactly when the writing
  behaviour is High or the speciality is Cardiology or Oncology, and "Email" exactly
  otherwise; it is computed from the speciality and the writing behaviour of that row
  alone.
\<close>

theorem channel_affinity_rule:
  "channel_affinity df st =
     map (\<lambda>r. (npi_id r, affinity_rule (speciality r) (writing_behavior r))) (rows (st ! df)) \<and>
   length (channel_affinity df st) = length (rows (st ! df)) \<and>
   (\<forall>spec wb. (affinity_rule spec wb = ''In-person'' \<longleftrightarrow>
                  wb = ''High'' \<or> spec = ''Cardiology'' \<or> spec = ''Oncology'') \<and>
              (affinity_rule spec wb = ''Email'' \<longleftrightarrow>
                  \<not> (wb = ''High'' \<or> spec = ''Cardiology'' \<or> spec = ''Oncology'')))"
proof -
  have a: "channel_affinity df st =
     map (\<lambda>r. (npi_id r, affinity_rule (speciality r) (writing_behavior r))) (rows (st ! df))"
    unfolding channel_affinity_def affinity_loop_map by (simp add: zip_map_map_same)
  have b: "length (channel_affinity df st) = length (rows (st ! df))"
    unfolding a by simp
  have c: "\<forall>spec wb. (affinity_rule spec wb = ''In-person'' \<longleftrightarrow>
                  wb = ''High'' \<or> spec = ''Cardiology'' \<or> spec = ''Oncology'') \<and>
              (affinity_rule spec wb = ''Email'' \<longleftrightarrow>
                  \<not> (wb = ''High'' \<or> spec = ''Cardiology'' \<or> spec = ''Oncology''))"
    by (simp add: affinity_rule_def)
  from a b c show ?thesis by blast
qed

theorem channel_affinity_rule_witness:
  "channel_affinity 0 [demo_table] =
     [(''1000000000'', ''In-person''), (''1000000001'', ''Email''), (''1000000002'', ''In-person''),
      (''1000000003'', ''Email''), (''1000000004'', ''Email''), (''1000000005'', ''In-person'')]"
proof -
  have "map (\<lambda>r. (npi_id r, affinity_rule (speciality r) (writing_behavior r))) (rows ([demo_table] ! 0)) =
     [(''1000000000'', ''In-person''), (''1000000001'', ''Email''), (''1000000002'', ''In-person''),
      (''1000000003'', ''Email''), (''1000000004'', ''Email''), (''1000000005'', ''In-person'')]"
    by code_simp
  with channel_affinity_rule[of 0 "[demo_table]"] show ?thesis by simp
qed

text \<open>
  C8. The table \<open>generate_hcp_data\<close> returns for a count does not depend on the state
  of the random number generators at the call, and a second call, which starts from the
  state the first one left, returns the same table.
\<close>

theorem generate_hcp_data_deterministic:
  "fst (generate_hcp_data L n s) = fst (generate_hcp_data L n s') \<and>
   fst (generate_hcp_data L n (snd (generate_hcp_data L n s))) = fst (generate_hcp_data L n s)"
  unfolding generate_hcp_data_def
  using synthea_simulator_state_free[of L n s s']
        synthea_simulator_state_free[of L n "snd (synthea_simulator L n s)" s]
  by simp

theorem generate_hcp_data_deterministic_witness:
  "fst (generate_hcp_data counter_library 2 (5, 11)) = fst (generate_hcp_data counter_library 2 (0, 0)) \<and>
   fst (generate_hcp_data counter_library 2 (0, 0)) =
     Inr \<lparr>extra_columns = [], rows =
       [base_row 0 ''1000000000'' ''Psychiatry'' 8591 ''IL'' ''High'',
        base_row 1 ''1000000001'' ''Surgery'' 8628 ''PA'' ''Low'']\<rparr>"
proof -
  have "fst (generate_hcp_data counter_library 2 (0, 0)) =
     Inr \<lparr>extra_columns = [], rows =
       [base_row 0 ''1000000000'' ''Psychiatry'' 8591 ''IL'' ''High'',
        base_row 1 ''1000000001'' ''Surgery'' 8628 ''PA'' ''Low'']\<rparr>"
    by code_simp
  with generate_hcp_data_deterministic[of counter_library 2 "(5, 11)" "(0, 0)"]
  show ?thesis by simp
qed

text \<open>
  C9. \<open>rank_hcps\<close> returns a new table and changes the one it was given: the caller's
  table has gained the score column (and no other), its rows are in their old order
  with every other cell as before, and no other table of the store has changed. When
  the run of \<open>app.py\<close> gets as far as showing "Current HCP Data", the table shown is
  that changed table, so it has the score column.
\<close>

theorem rank_hcps_mutates_argument:
  assumes "df < length st"
  shows "\<exists>df' st'. rank_hcps A df st = (df', st') \<and> df' \<noteq> df \<and>
           extra_columns (st' ! df) = add_column ''score'' (extra_columns (st ! df)) \<and>
           ''score'' \<in> set (columns (st' ! df)) \<and>
           rows (st' ! df) =
             map (\<lambda>r. r\<lparr>score := times_cell (rx_value r) (score_map (writing_behavior r))\<rparr>)
                 (rows (st ! df)) \<and>
           map base_cells (rows (st' ! df)) = map base_cells (rows (st ! df)) \<and>
           (\<forall>r < length st. r \<noteq> df \<longrightarrow> st' ! r = st ! r) \<and>
           (\<forall>v. app_tables A df st = Inr v \<longrightarrow>
                current_hcp_data v = st' ! df \<and> ''score'' \<in> set (columns (current_hcp_data v)))"
proof -
  let ?st' = "st[df := scored (st ! df)] @ [ranked A (st ! df)]"
  have e: "rank_hcps A df st = (length st, ?st')" by (rule rank_hcps_eq[OF assms])
  have n: "length st \<noteq> df" using assms by simp
  have c: "?st' ! df = scored (st ! df)" using assms by (simp add: nth_append)
  have 1: "extra_columns (?st' ! df) = add_column ''score'' (extra_columns (st ! df))"
    unfolding c by (rule extra_columns_scored)
  have 2: "''score'' \<in> set (columns (?st' ! df))"
    unfolding c by (simp add: columns_def extra_columns_scored add_column_def)
  have 3: "rows (?st' ! df) =
             map (\<lambda>r. r\<lparr>score := times_cell (rx_value r) (score_map (writing_behavior r))\<rparr>)
                 (rows (st ! df))"
    unfolding c by (rule rows_scored)
  have 4: "map base_cells (rows (?st' ! df)) = map base_cells (rows (st ! df))"
    unfolding 3 by (simp add: base_cells_def o_def)
  have 5: "\<forall>r < length st. r \<noteq> df \<longrightarrow> ?st' ! r = st ! r"
    by (simp add: nth_append)
  have 6: "\<forall>v. app_tables A df st = Inr v \<longrightarrow>
                current_hcp_data v = ?st' ! df \<and> ''score'' \<in> set (columns (current_hcp_data v))"
    using app_tables_shown[OF assms] 2 unfolding c by simp
  from e n 1 2 3 4 5 6 show ?thesis by blast
qed

theorem rank_hcps_mutates_argument_witness:
  "0 < length [demo_table] \<and>
   columns demo_table = [''NPI Id'', ''speciality'', ''rx value'', ''state_code'', ''writing_behavior''] \<and>
   (\<exists>df' st' v. rank_hcps stable_argsort 0 [demo_table] = (df', st') \<and>
      app_tables stable_argsort 0 [demo_table] = Inr v \<and>
      current_hcp_data v = st' ! 0 \<and>
      columns (st' ! 0) =
        [''NPI Id'', ''speciality'', ''rx value'', ''state_code'', ''writing_behavior'', ''score''] \<and>
      map (\<lambda>r. (npi_id r, score r)) (rows (st' ! 0)) =
        [(''1000000000'', Some 3000), (''1000000001'', Some 500), (''1000000002'', Some 3000),
         (''1000000003'', None), (''1000000004'', Some 1400), (''1000000005'', Some 1200)])"
proof -
  have h1: "0 < length [demo_table]" by simp
  have h0: "columns demo_table = [''NPI Id'', ''speciality'', ''rx value'', ''state_code'', ''writing_behavior'']"
    by code_simp
  from rank_hcps_mutates_argument[OF h1, of stable_argsort] obtain df' st' where
    r: "rank_hcps stable_argsort 0 [demo_table] = (df', st')"
    and a: "\<forall>v. app_tables stable_argsort 0 [demo_table] = Inr v \<longrightarrow>
                current_hcp_data v = st' ! 0 \<and> ''score'' \<in> set (columns (current_hcp_data v))"
    by blast
  have "\<not> isl (app_tables stable_argsort 0 [demo_table])"
    by code_simp
  then obtain v where v: "app_tables stable_argsort 0 [demo_table] = Inr v"
    by (cases "app_tables stable_argsort 0 [demo_table]") simp_all
  with a have s: "current_hcp_data v = st' ! 0" by blast
  have "columns (snd (rank_hcps stable_argsort 0 [demo_table]) ! 0) =
        [''NPI Id'', ''speciality'', ''rx value'', ''state_code'', ''writing_behavior'', ''score'']"
    by code_simp
  then have c: "columns (st' ! 0) =
        [''NPI Id'', ''speciality'', ''rx value'', ''state_code'', ''writing_behavior'', ''score'']"
    unfolding r by simp
  have "map (\<lambda>r. (npi_id r, score r)) (rows (snd (rank_hcps stable_argsort 0 [demo_table]) ! 0)) =
        [(''1000000000'', Some 3000), (''1000000001'', Some 500), (''1000000002'', Some 3000),
         (''1000000003'', None), (''1000000004'', Some 1400), (''1000000005'', Some 1200)]"
    by code_simp
  then have m: "map (\<lambda>r. (npi_id r, score r)) (rows (st' ! 0)) =
        [(''1000000000'', Some 3000), (''1000000001'', Some 500), (''1000000002'', Some 3000),
         (''1000000003'', None), (''1000000004'', Some 1400), (''1000000005'', Some 1200)]"
    unfolding r by simp
  show ?thesis
    by (intro conjI exI[of _ df'] exI[of _ st'] exI[of _ v]) (fact h1 h0 r v s c m)+
qed

end
